theory Spec2Isabelle
  imports Main
begin

section \<open>Values, documents, schemas\<close>

text \<open>
  An identifier is an ObjectId, represented by its string form (what \<^verbatim>\<open>toString()\<close>
  returns). An ObjectId is an object, so it is always truthy.
\<close>

type_synonym oid = string

text \<open>
  The values a document field or a payload key can hold, as far as the plugin looks at
  them: null/undefined (also an absent key), one identifier, an array of identifiers, or
  a plain object (needed for update payloads such as \<^verbatim>\<open>{$set: {author: id}}\<close>).
  These are the values the signature of \<^verbatim>\<open>validateReference\<close> declares, and objects; an
  array of subdocuments is not among them.
\<close>

datatype val = VNull | VId oid | VArr "oid list" | VObj "(string \<times> val) list"

text \<open>JavaScript truthiness, as used by \<^verbatim>\<open>if (!value)\<close>: arrays and objects are truthy,
  also when empty.\<close>

fun truthy :: "val \<Rightarrow> bool" where
  "truthy VNull = False"
| "truthy (VId i) = True"
| "truthy (VArr xs) = True"
| "truthy (VObj kvs) = True"

text \<open>
  What the plugin reads of a Mongoose SchemaType: \<^verbatim>\<open>path.options.ref\<close>,
  \<^verbatim>\<open>path instanceof Schema.Types.Array\<close> and \<^verbatim>\<open>path.schema\<close>. \<^verbatim>\<open>schema.paths\<close> is an
  object; \<^verbatim>\<open>for ... in\<close> enumerates its keys in order, so a schema is the list of its
  paths in enumeration order.
\<close>

datatype path = Path (options_ref: "string option") (instanceofArray: bool)
  (path_schema: "(string \<times> path) list option")

type_synonym schema = "(string \<times> path) list"

record RefField =
  field :: string
  refTo :: string

record ValidationResult =
  vr_field :: string
  vr_refTo :: string
  vr_value :: val
  isValid :: bool

record RefModel =
  rm_modelName :: string
  rm_fields :: "string list"

text \<open>A stored document: its \<^verbatim>\<open>_id\<close> and what \<^verbatim>\<open>doc.get(name)\<close> returns for each path
  (undefined, here \<^const>\<open>VNull\<close>, for a path that is not set).\<close>

record doc =
  doc_id :: oid
  doc_get :: "string \<Rightarrow> val"

text \<open>
  A Mongoose model: its name, its schema and the collection behind it. The collection is
  the list of its documents in natural order. \<open>failure\<close> is the state of the connection:
  when it is \<open>Some msg\<close>, every query on the collection rejects with an error of that
  message.
\<close>

record model =
  modelName :: string
  schema :: schema
  docs :: "doc list"
  failure :: "string option"

text \<open>The connection: \<^verbatim>\<open>db.modelNames()\<close>, the names of the registered models in
  registration order, and the model \<^verbatim>\<open>db.model(name)\<close> returns for a registered name.\<close>

record db =
  db_modelNames :: "string list"
  db_model :: "string \<Rightarrow> model"

section \<open>Errors and database operations\<close>

text \<open>Every error the plugin raises is a JavaScript \<^verbatim>\<open>Error\<close> with a message.\<close>

datatype error = Error string

text \<open>The queries a hook can issue, recorded in the order they are issued.\<close>

datatype dbop =
    Exists string val
  | ExistsIn string "oid list"
  | CountDocuments string "oid list"
  | FindOne string
  | Aggregate string "string list" oid

text \<open>An asynchronous computation: the queries it issued, and its rejection or result.\<close>

type_synonym 'a io = "dbop list \<times> (error + 'a)"

definition bind_io :: "'a io \<Rightarrow> ('a \<Rightarrow> 'b io) \<Rightarrow> 'b io" where
  "bind_io x f =
     (case x of
        (t, Inl e) \<Rightarrow> (t, Inl e)
      | (t, Inr a) \<Rightarrow> (case f a of (t', r) \<Rightarrow> (t @ t', r)))"

subsection \<open>Resolving a model\<close>

text \<open>
  \<^verbatim>\<open>this.model(name)\<close> and \<^verbatim>\<open>db.model(name)\<close> with a name alone: the registered model of
  that name. For a name that is not registered Mongoose throws its MissingSchemaError;
  the message is abbreviated here.
\<close>

definition missingSchemaError :: "string \<Rightarrow> error" where
  "missingSchemaError name = Error (''MissingSchemaError: '' @ name)"

definition model_of :: "db \<Rightarrow> string \<Rightarrow> error + model" where
  "model_of d name =
     (if name \<in> set (db_modelNames d) then Inr (db_model d name)
      else Inl (missingSchemaError name))"

subsection \<open>The driver's queries\<close>

text \<open>
  \<^verbatim>\<open>model.exists({ _id: value })\<close>: the \<^verbatim>\<open>_id\<close> of the first matching document, or null.
  A value that is not an identifier does not cast to ObjectId and the query rejects.
\<close>

definition castError :: string where
  "castError = ''Cast to ObjectId failed''"

definition exists_by_id :: "model \<Rightarrow> val \<Rightarrow> string + oid option" where
  "exists_by_id m v =
     (case v of
        VId i \<Rightarrow>
          (case failure m of
             Some msg \<Rightarrow> Inl msg
           | None \<Rightarrow> Inr (find (\<lambda>j. j = i) (map doc_id (docs m))))
      | _ \<Rightarrow> Inl castError)"

text \<open>\<^verbatim>\<open>model.exists({ _id: { $in: ids } })\<close>.\<close>

definition exists_in :: "model \<Rightarrow> oid list \<Rightarrow> string + oid option" where
  "exists_in m ids =
     (case failure m of
        Some msg \<Rightarrow> Inl msg
      | None \<Rightarrow> Inr (find (\<lambda>j. j \<in> set ids) (map doc_id (docs m))))"

text \<open>\<^verbatim>\<open>model.countDocuments({ _id: { $in: ids } })\<close>.\<close>

definition countDocuments :: "model \<Rightarrow> oid list \<Rightarrow> string + nat" where
  "countDocuments m ids =
     (case failure m of
        Some msg \<Rightarrow> Inl msg
      | None \<Rightarrow> Inr (length (filter (\<lambda>d. doc_id d \<in> set ids) (docs m))))"

text \<open>\<^verbatim>\<open>model.findOne(query)\<close>: the first document the query matches.\<close>

definition findOne :: "model \<Rightarrow> (doc \<Rightarrow> bool) \<Rightarrow> string + doc option" where
  "findOne m query =
     (case failure m of
        Some msg \<Rightarrow> Inl msg
      | None \<Rightarrow> Inr (find query (docs m)))"

text \<open>
  MongoDB's equality match \<^verbatim>\<open>{ [field]: id }\<close>: the field equals the identifier, or is
  an array that contains it.
\<close>

fun matches :: "val \<Rightarrow> oid \<Rightarrow> bool" where
  "matches (VId j) i = (j = i)"
| "matches (VArr xs) i = (i \<in> set xs)"
| "matches VNull i = False"
| "matches (VObj kvs) i = False"

text \<open>\<^verbatim>\<open>model.aggregate([{ $match: { $or: [{f1: id}, ...] } }, { $limit: 1 }])\<close>.\<close>

definition aggregate :: "model \<Rightarrow> string list \<Rightarrow> oid \<Rightarrow> string + doc list" where
  "aggregate m fs i =
     (case failure m of
        Some msg \<Rightarrow> Inl msg
      | None \<Rightarrow> Inr (take 1 (filter (\<lambda>d. list_ex (\<lambda>f. matches (doc_get d f) i) fs) (docs m))))"

section \<open>The TypeScript implementation (src/index.ts)\<close>

text \<open>The calls of \<^verbatim>\<open>log\<close> only print when \<^verbatim>\<open>enableLogging\<close> is set and decide nothing;
  they are left out.\<close>

subsection \<open>getRefFields\<close>

text \<open>The inner loop over \<^verbatim>\<open>path.schema.paths\<close>; \<open>fld\<close> is the outer field. A \<^verbatim>\<open>ref\<close>
  option is a string; the empty string is falsy.\<close>

fun subRefFields :: "string \<Rightarrow> schema \<Rightarrow> RefField list" where
  "subRefFields fld [] = []"
| "subRefFields fld ((subField, subPath) # rest) =
     (case options_ref subPath of
        Some r \<Rightarrow>
          if r \<noteq> [] then \<lparr>field = fld, refTo = r\<rparr> # subRefFields fld rest
          else subRefFields fld rest
      | None \<Rightarrow> subRefFields fld rest)"

fun getRefFields :: "schema \<Rightarrow> RefField list" where
  "getRefFields [] = []"
| "getRefFields ((fld, p) # rest) =
     (case options_ref p of
        Some r \<Rightarrow> if r \<noteq> [] then [\<lparr>field = fld, refTo = r\<rparr>] else []
      | None \<Rightarrow> [])
     @ (if instanceofArray p then
          (case path_schema p of
             Some sub \<Rightarrow> subRefFields fld sub
           | None \<Rightarrow> [])
        else [])
     @ getRefFields rest"

subsection \<open>validateReference\<close>

text \<open>\<^verbatim>\<open>[...new Set(values)]\<close>: the distinct values in order of first occurrence.\<close>

fun newSet :: "'a list \<Rightarrow> 'a list \<Rightarrow> 'a list" where
  "newSet acc [] = acc"
| "newSet acc (x # xs) = (if x \<in> set acc then newSet acc xs else newSet (acc @ [x]) xs)"

definition toString :: "oid \<Rightarrow> string" where
  "toString i = i"

definition databaseError :: "string \<Rightarrow> string \<Rightarrow> error" where
  "databaseError fieldName msg =
     Error (''Database error validating '' @ fieldName @ '': '' @ msg)"

definition validateReference :: "model \<Rightarrow> val \<Rightarrow> string \<Rightarrow> bool io" where
  "validateReference m v fieldName =
     (if \<not> truthy v then ([], Inr True)
      else case v of
        VArr xs \<Rightarrow>
          if length xs = 0 then ([], Inr True)
          else
            let uniqueValues = newSet [] (map toString xs) in
            (case countDocuments m uniqueValues of
               Inl msg \<Rightarrow>
                 ([CountDocuments (modelName m) uniqueValues], Inl (databaseError fieldName msg))
             | Inr count \<Rightarrow>
                 ([CountDocuments (modelName m) uniqueValues], Inr (count = length uniqueValues)))
      | _ \<Rightarrow>
          (case exists_by_id m v of
             Inl msg \<Rightarrow> ([Exists (modelName m) v], Inl (databaseError fieldName msg))
           | Inr found \<Rightarrow> ([Exists (modelName m) v], Inr (found \<noteq> None))))"

subsection \<open>The save hook\<close>

text \<open>How a value prints inside a template string: an ObjectId as its hex string, an
  array as its elements joined by commas.\<close>

fun joinComma :: "string list \<Rightarrow> string" where
  "joinComma [] = []"
| "joinComma [x] = x"
| "joinComma (x # y # ys) = x @ '','' @ joinComma (y # ys)"

fun render :: "val \<Rightarrow> string" where
  "render VNull = ''null''"
| "render (VId i) = toString i"
| "render (VArr xs) = joinComma (map toString xs)"
| "render (VObj kvs) = ''[object Object]''"

definition validationFailed :: "val \<Rightarrow> string \<Rightarrow> error" where
  "validationFailed v target =
     Error (''Reference validation failed: The value '' @ render v
            @ '' does not exist within '' @ target)"

text \<open>The \<^verbatim>\<open>for (const fieldObj of refFields)\<close> loop of the save hook; \<open>this\<close> is the
  document being saved. \<open>Inr ()\<close> is \<^verbatim>\<open>next()\<close>, \<open>Inl e\<close> is \<^verbatim>\<open>next(e)\<close>: whatever is
  thrown inside the hook, also by \<^verbatim>\<open>this.model\<close>, is caught and passed to \<^verbatim>\<open>next\<close>.\<close>

fun save_loop :: "db \<Rightarrow> doc \<Rightarrow> RefField list \<Rightarrow> unit io" where
  "save_loop d this [] = ([], Inr ())"
| "save_loop d this (fieldObj # rest) =
     (let v = doc_get this (field fieldObj) in
      if \<not> truthy v then save_loop d this rest
      else
        (case model_of d (refTo fieldObj) of
           Inl e \<Rightarrow> ([], Inl e)
         | Inr m \<Rightarrow>
             bind_io (validateReference m v (field fieldObj))
               (\<lambda>valid.
                  if \<not> valid then ([], Inl (validationFailed v (refTo fieldObj)))
                  else save_loop d this rest)))"

definition pre_save :: "db \<Rightarrow> schema \<Rightarrow> doc \<Rightarrow> unit io" where
  "pre_save d this_schema this =
     (let refFields = getRefFields this_schema in
      if length refFields = 0 then ([], Inr ())
      else save_loop d this refFields)"

subsection \<open>The update hook\<close>

text \<open>\<^verbatim>\<open>payload[name]\<close> on the object \<^verbatim>\<open>this.getUpdate()\<close> returned: undefined for a key
  the object does not have.\<close>

definition payload_get :: "(string \<times> val) list \<Rightarrow> string \<Rightarrow> val" where
  "payload_get payload k = (case map_of payload k of Some v \<Rightarrow> v | None \<Rightarrow> VNull)"

fun update_loop :: "db \<Rightarrow> (string \<times> val) list \<Rightarrow> RefField list \<Rightarrow> unit io" where
  "update_loop d payload [] = ([], Inr ())"
| "update_loop d payload (fieldObj # rest) =
     (let v = payload_get payload (field fieldObj) in
      if \<not> truthy v then update_loop d payload rest
      else
        (case model_of d (refTo fieldObj) of
           Inl e \<Rightarrow> ([], Inl e)
         | Inr m \<Rightarrow>
             bind_io (validateReference m v (field fieldObj))
               (\<lambda>valid.
                  if \<not> valid then ([], Inl (validationFailed v (refTo fieldObj)))
                  else update_loop d payload rest)))"

text \<open>\<open>getUpdate\<close> is what \<^verbatim>\<open>this.getUpdate()\<close> returns: \<open>None\<close> for null/undefined.\<close>

definition pre_update :: "db \<Rightarrow> model \<Rightarrow> (string \<times> val) list option \<Rightarrow> unit io" where
  "pre_update d this_model getUpdate =
     (case getUpdate of
        None \<Rightarrow> ([], Inr ())
      | Some payload \<Rightarrow>
          let refFields = getRefFields (schema this_model) in
          if length refFields = 0 then ([], Inr ())
          else update_loop d payload refFields)"

subsection \<open>The delete hook\<close>

text \<open>The loop over \<^verbatim>\<open>model.schema.paths\<close> of the discovery.\<close>

fun scanPaths :: "string \<Rightarrow> schema \<Rightarrow> string list" where
  "scanPaths deletingModelName [] = []"
| "scanPaths deletingModelName ((fld, p) # rest) =
     (if options_ref p = Some deletingModelName then fld # scanPaths deletingModelName rest
      else scanPaths deletingModelName rest)"

text \<open>The loop over \<^verbatim>\<open>allModelNames\<close>. Its names come from \<^verbatim>\<open>db.modelNames()\<close>, so
  \<^verbatim>\<open>db.model(modelName)\<close> finds each of them registered.\<close>

fun findRefModels :: "db \<Rightarrow> string \<Rightarrow> string list \<Rightarrow> RefModel list" where
  "findRefModels d deletingModelName [] = []"
| "findRefModels d deletingModelName (name # rest) =
     (if name = deletingModelName then findRefModels d deletingModelName rest
      else
        let refFields = scanPaths deletingModelName (schema (db_model d name)) in
        if length refFields > 0 then
          \<lparr>rm_modelName = name, rm_fields = refFields\<rparr> # findRefModels d deletingModelName rest
        else findRefModels d deletingModelName rest)"

definition cannotDelete :: "oid \<Rightarrow> string \<Rightarrow> error" where
  "cannotDelete i name =
     Error (''Cannot delete record '' @ toString i @ '': It is referenced in '' @ name
            @ '' model'')"

text \<open>The loop over \<^verbatim>\<open>refModels\<close>. An error of the aggregation is passed to \<^verbatim>\<open>next\<close>
  as it is.\<close>

fun checkRefModels :: "db \<Rightarrow> oid \<Rightarrow> RefModel list \<Rightarrow> unit io" where
  "checkRefModels d i [] = ([], Inr ())"
| "checkRefModels d i (refModel # rest) =
     (let m = db_model d (rm_modelName refModel) in
      case aggregate m (rm_fields refModel) i of
        Inl msg \<Rightarrow> ([Aggregate (rm_modelName refModel) (rm_fields refModel) i], Inl (Error msg))
      | Inr found \<Rightarrow>
          if length found > 0 then
            ([Aggregate (rm_modelName refModel) (rm_fields refModel) i],
             Inl (cannotDelete i (rm_modelName refModel)))
          else
            (case checkRefModels d i rest of
               (t, r) \<Rightarrow> (Aggregate (rm_modelName refModel) (rm_fields refModel) i # t, r)))"

definition pre_delete :: "db \<Rightarrow> model \<Rightarrow> (doc \<Rightarrow> bool) \<Rightarrow> unit io" where
  "pre_delete d this_model query =
     (let deletingModelName = modelName this_model in
      case findOne this_model query of
        Inl msg \<Rightarrow> ([FindOne deletingModelName], Inl (Error msg))
      | Inr None \<Rightarrow> ([FindOne deletingModelName], Inr ())
      | Inr (Some deletingItem) \<Rightarrow>
          let refModels = findRefModels d deletingModelName (db_modelNames d) in
          if length refModels = 0 then ([FindOne deletingModelName], Inr ())
          else
            (case checkRefModels d (doc_id deletingItem) refModels of
               (t, r) \<Rightarrow> (FindOne deletingModelName # t, r)))"

subsection \<open>validateReferences and checkReferences\<close>

text \<open>Neither function catches anything: what \<^verbatim>\<open>this.model\<close> or \<^verbatim>\<open>validateReference\<close>
  throws rejects the promise they return.\<close>

fun validateReferences_loop ::
  "db \<Rightarrow> (string \<times> val) list \<Rightarrow> ValidationResult list \<Rightarrow> RefField list
    \<Rightarrow> ValidationResult list io" where
  "validateReferences_loop d data results [] = ([], Inr results)"
| "validateReferences_loop d data results (fieldObj # rest) =
     (let v = payload_get data (field fieldObj) in
      if \<not> truthy v then validateReferences_loop d data results rest
      else
        (case model_of d (refTo fieldObj) of
           Inl e \<Rightarrow> ([], Inl e)
         | Inr m \<Rightarrow>
             bind_io (validateReference m v (field fieldObj))
               (\<lambda>valid.
                  validateReferences_loop d data
                    (results @ [\<lparr>vr_field = field fieldObj, vr_refTo = refTo fieldObj,
                                 vr_value = v, isValid = valid\<rparr>])
                    rest)))"

definition validateReferences :: "db \<Rightarrow> schema \<Rightarrow> (string \<times> val) list \<Rightarrow> ValidationResult list io" where
  "validateReferences d this_schema data =
     validateReferences_loop d data [] (getRefFields this_schema)"

fun checkReferences_loop ::
  "db \<Rightarrow> doc \<Rightarrow> ValidationResult list \<Rightarrow> RefField list \<Rightarrow> ValidationResult list io" where
  "checkReferences_loop d this results [] = ([], Inr results)"
| "checkReferences_loop d this results (fieldObj # rest) =
     (let v = doc_get this (field fieldObj) in
      if \<not> truthy v then checkReferences_loop d this results rest
      else
        (case model_of d (refTo fieldObj) of
           Inl e \<Rightarrow> ([], Inl e)
         | Inr m \<Rightarrow>
             bind_io (validateReference m v (field fieldObj))
               (\<lambda>valid.
                  checkReferences_loop d this
                    (results @ [\<lparr>vr_field = field fieldObj, vr_refTo = refTo fieldObj,
                                 vr_value = v, isValid = valid\<rparr>])
                    rest)))"

definition checkReferences :: "db \<Rightarrow> schema \<Rightarrow> doc \<Rightarrow> ValidationResult list io" where
  "checkReferences d this_schema this =
     checkReferences_loop d this [] (getRefFields this_schema)"

subsection \<open>Installing the hooks\<close>

text \<open>The options object: \<open>None\<close> for a key the caller left out.\<close>

record ReferenceCheckOptions =
  opt_enableSave :: "bool option"
  opt_enableUpdate :: "bool option"
  opt_enableDelete :: "bool option"
  opt_enableLogging :: "bool option"
  opt_batchSize :: "nat option"

record config =
  enableSave :: bool
  enableUpdate :: bool
  enableDelete :: bool
  enableLogging :: bool
  batchSize :: nat

text \<open>The defaults, overridden by the keys of the options (the object spread).\<close>

definition mergeConfig :: "ReferenceCheckOptions \<Rightarrow> config" where
  "mergeConfig options =
     \<lparr>enableSave = (case opt_enableSave options of Some b \<Rightarrow> b | None \<Rightarrow> True),
      enableUpdate = (case opt_enableUpdate options of Some b \<Rightarrow> b | None \<Rightarrow> True),
      enableDelete = (case opt_enableDelete options of Some b \<Rightarrow> b | None \<Rightarrow> True),
      enableLogging = (case opt_enableLogging options of Some b \<Rightarrow> b | None \<Rightarrow> False),
      batchSize = (case opt_batchSize options of Some n \<Rightarrow> n | None \<Rightarrow> 100)\<rparr>"

text \<open>What \<^verbatim>\<open>ReferenceCheck(schema, options)\<close> registers with \<^verbatim>\<open>schema.pre\<close>: the handler
  of each kind of operation, or none.\<close>

record installed =
  preSave :: "(db \<Rightarrow> schema \<Rightarrow> doc \<Rightarrow> unit io) option"
  preUpdate :: "(db \<Rightarrow> model \<Rightarrow> (string \<times> val) list option \<Rightarrow> unit io) option"
  preDelete :: "(db \<Rightarrow> model \<Rightarrow> (doc \<Rightarrow> bool) \<Rightarrow> unit io) option"

definition ReferenceCheck :: "ReferenceCheckOptions \<Rightarrow> installed" where
  "ReferenceCheck options =
     (let config = mergeConfig options in
      \<lparr>preSave = (if enableSave config then Some pre_save else None),
       preUpdate = (if enableUpdate config then Some pre_update else None),
       preDelete = (if enableDelete config then Some pre_delete else None)\<rparr>)"

text \<open>
  Mongoose's side of the contract: before an operation it runs the handler registered
  for it, if there is one; the operation goes ahead on \<open>Inr ()\<close> and is aborted with the
  error on \<open>Inl e\<close>. With no handler registered, nothing runs and the operation goes
  ahead.
\<close>

definition before_save :: "installed \<Rightarrow> db \<Rightarrow> schema \<Rightarrow> doc \<Rightarrow> unit io" where
  "before_save h d this_schema this =
     (case preSave h of None \<Rightarrow> ([], Inr ()) | Some handler \<Rightarrow> handler d this_schema this)"

definition before_update ::
  "installed \<Rightarrow> db \<Rightarrow> model \<Rightarrow> (string \<times> val) list option \<Rightarrow> unit io" where
  "before_update h d this_model getUpdate =
     (case preUpdate h of None \<Rightarrow> ([], Inr ()) | Some handler \<Rightarrow> handler d this_model getUpdate)"

definition before_delete :: "installed \<Rightarrow> db \<Rightarrow> model \<Rightarrow> (doc \<Rightarrow> bool) \<Rightarrow> unit io" where
  "before_delete h d this_model query =
     (case preDelete h of None \<Rightarrow> ([], Inr ()) | Some handler \<Rightarrow> handler d this_model query)"

section \<open>The JavaScript implementation (index.js)\<close>

fun getRefFields_js :: "schema \<Rightarrow> RefField list" where
  "getRefFields_js [] = []"
| "getRefFields_js ((fld, p) # rest) =
     (case options_ref p of
        Some r \<Rightarrow> if r \<noteq> [] then \<lparr>field = fld, refTo = r\<rparr> # getRefFields_js rest
                  else getRefFields_js rest
      | None \<Rightarrow> getRefFields_js rest)"

text \<open>What the JavaScript \<^verbatim>\<open>validateReference\<close> returns: \<^verbatim>\<open>true\<close>, or what
  \<^verbatim>\<open>model.exists\<close> resolved to, which is null or \<^verbatim>\<open>{ _id }\<close>. Its callers only test
  the truthiness.\<close>

datatype js_result = JTrue | JNull | JDoc oid

fun js_truthy :: "js_result \<Rightarrow> bool" where
  "js_truthy JTrue = True"
| "js_truthy JNull = False"
| "js_truthy (JDoc i) = True"

definition of_exists :: "oid option \<Rightarrow> js_result" where
  "of_exists found = (case found of None \<Rightarrow> JNull | Some i \<Rightarrow> JDoc i)"

text \<open>\<^verbatim>\<open>new Set(value)\<close> is applied to the identifiers themselves here, not to their
  strings; which of them the set keeps does not change what \<^verbatim>\<open>$in\<close> matches.\<close>

definition validateReference_js :: "model \<Rightarrow> string \<Rightarrow> val \<Rightarrow> string \<Rightarrow> js_result io" where
  "validateReference_js m refModelName v fieldName =
     (if \<not> truthy v then ([], Inr JTrue)
      else case v of
        VArr xs \<Rightarrow>
          if length xs = 0 then ([], Inr JTrue)
          else
            let uniqueValues = newSet [] xs in
            (case exists_in m uniqueValues of
               Inl msg \<Rightarrow>
                 ([ExistsIn (modelName m) uniqueValues], Inl (databaseError fieldName msg))
             | Inr found \<Rightarrow>
                 ([ExistsIn (modelName m) uniqueValues], Inr (of_exists found)))
      | _ \<Rightarrow>
          (case exists_by_id m v of
             Inl msg \<Rightarrow> ([Exists (modelName m) v], Inl (databaseError fieldName msg))
           | Inr found \<Rightarrow> ([Exists (modelName m) v], Inr (of_exists found))))"

section \<open>The extraction, in the words of the specification\<close>

text \<open>The reference-target annotation of a field declaration, if it carries one.\<close>

definition annotation :: "path \<Rightarrow> string list" where
  "annotation p =
     (case options_ref p of Some r \<Rightarrow> if r \<noteq> [] then [r] else [] | None \<Rightarrow> [])"

text \<open>The fields of the nested schema of an array-typed field whose element type is a
  structured schema; no fields otherwise.\<close>

definition nestedSchema :: "path \<Rightarrow> schema" where
  "nestedSchema p =
     (if instanceofArray p then (case path_schema p of Some sub \<Rightarrow> sub | None \<Rightarrow> [])
      else [])"

text \<open>One ReferenceField per annotation of the field itself, then one per annotated
  field of its nested schema, all under the name of the outer field.\<close>

definition extract_spec :: "schema \<Rightarrow> RefField list" where
  "extract_spec s =
     concat (map (\<lambda>(fld, p).
       map (\<lambda>r. \<lparr>field = fld, refTo = r\<rparr>)
         (annotation p
          @ concat (map (\<lambda>(subField, subPath). annotation subPath) (nestedSchema p)))) s)"

section \<open>An example store\<close>

definition plain :: path where
  "plain = Path None False None"

definition exTag :: model where
  "exTag =
     \<lparr>modelName = ''Tag'', schema = [(''_id'', plain), (''name'', plain)],
      docs = [\<lparr>doc_id = ''A'', doc_get = (\<lambda>k. VNull)\<rparr>,
              \<lparr>doc_id = ''B'', doc_get = (\<lambda>k. VNull)\<rparr>],
      failure = None\<rparr>"

definition exUser :: model where
  "exUser =
     \<lparr>modelName = ''User'', schema = [(''_id'', plain), (''name'', plain)],
      docs = [\<lparr>doc_id = ''u1'', doc_get = (\<lambda>k. VNull)\<rparr>,
              \<lparr>doc_id = ''u2'', doc_get = (\<lambda>k. VNull)\<rparr>],
      failure = None\<rparr>"

definition postSchema :: schema where
  "postSchema =
     [(''_id'', plain), (''title'', plain),
      (''author'', Path (Some ''User'') False None),
      (''tags'', Path (Some ''Tag'') True None)]"

text \<open>The post \<open>p1\<close>: written by \<open>u2\<close>, tagged \<open>A\<close>.\<close>

definition p1 :: doc where
  "p1 =
     \<lparr>doc_id = ''p1'',
      doc_get = (\<lambda>k. if k = ''author'' then VId ''u2''
                     else if k = ''tags'' then VArr [''A''] else VNull)\<rparr>"

definition exPost :: model where
  "exPost = \<lparr>modelName = ''Post'', schema = postSchema, docs = [p1], failure = None\<rparr>"

text \<open>A thread holds an array of comment subdocuments, each with an author.\<close>

definition threadSchema :: schema where
  "threadSchema =
     [(''_id'', plain),
      (''comments'',
         Path None True
           (Some [(''_id'', plain), (''author'', Path (Some ''User'') False None),
                  (''text'', plain)]))]"

definition exThread :: model where
  "exThread = \<lparr>modelName = ''Thread'', schema = threadSchema, docs = [], failure = None\<rparr>"

definition exDb :: db where
  "exDb =
     \<lparr>db_modelNames = [''User'', ''Post'', ''Tag'', ''Thread''],
      db_model = (\<lambda>name. if name = ''User'' then exUser
                         else if name = ''Post'' then exPost
                         else if name = ''Tag'' then exTag
                         else exThread)\<rparr>"

section \<open>Auxiliary notions for the statements\<close>

subsection \<open>Validating one field\<close>

text \<open>What each loop does with a field whose value is present: resolve the model of the
  target, then validate the value against it.\<close>

definition validateField :: "db \<Rightarrow> RefField \<Rightarrow> val \<Rightarrow> bool io" where
  "validateField d rf v =
     (case model_of d (refTo rf) of
        Inl e \<Rightarrow> ([], Inl e)
      | Inr m \<Rightarrow> validateReference m v (field rf))"

subsection \<open>Results of the manual validation\<close>

text \<open>The verdict on a field: true only when the target is registered, the lookup
  answered and the reference resolved.\<close>

definition verdict :: "db \<Rightarrow> RefField \<Rightarrow> val \<Rightarrow> bool" where
  "verdict d rf v = (snd (validateField d rf v) = Inr True)"

text \<open>One result per reference field whose value is present, in the order of the
  fields; \<open>get\<close> reads the value of a field.\<close>

definition results_spec ::
  "db \<Rightarrow> (string \<Rightarrow> val) \<Rightarrow> RefField list \<Rightarrow> ValidationResult list" where
  "results_spec d get rfs =
     map (\<lambda>rf. \<lparr>vr_field = field rf, vr_refTo = refTo rf, vr_value = get (field rf),
                isValid = verdict d rf (get (field rf))\<rparr>)
       (filter (\<lambda>rf. truthy (get (field rf))) rfs)"

text \<open>The validation of a present field rejects with the error \<open>e\<close>.\<close>

definition lookupFails :: "db \<Rightarrow> (string \<Rightarrow> val) \<Rightarrow> RefField \<Rightarrow> error \<Rightarrow> bool" where
  "lookupFails d get rf e =
     (truthy (get (field rf)) \<and> snd (validateField d rf (get (field rf))) = Inl e)"

subsection \<open>Fields of a document being saved\<close>

text \<open>The queries the save hook issues for one field.\<close>

definition fieldLookups :: "db \<Rightarrow> doc \<Rightarrow> RefField \<Rightarrow> dbop list" where
  "fieldLookups d this rf =
     (if truthy (doc_get this (field rf))
      then fst (validateField d rf (doc_get this (field rf)))
      else [])"

text \<open>A field the save hook goes past: its value is absent, or its target is registered
  and it resolves.\<close>

definition fieldPasses :: "db \<Rightarrow> doc \<Rightarrow> RefField \<Rightarrow> bool" where
  "fieldPasses d this rf =
     (if truthy (doc_get this (field rf))
      then snd (validateField d rf (doc_get this (field rf))) = Inr True
      else True)"

text \<open>An invalid field: its value is present, its target is registered, the lookup
  answers, and the reference does not resolve.\<close>

definition fieldInvalid :: "db \<Rightarrow> doc \<Rightarrow> RefField \<Rightarrow> bool" where
  "fieldInvalid d this rf =
     (truthy (doc_get this (field rf))
      \<and> snd (validateField d rf (doc_get this (field rf))) = Inr False)"

subsection \<open>What an error message names\<close>

fun message :: "error \<Rightarrow> string" where
  "message (Error msg) = msg"

fun isPrefix :: "string \<Rightarrow> string \<Rightarrow> bool" where
  "isPrefix [] ys = True"
| "isPrefix (x # xs) [] = False"
| "isPrefix (x # xs) (y # ys) = (x = y \<and> isPrefix xs ys)"

text \<open>\<open>mentions msg s\<close>: the text \<open>s\<close> occurs in the message.\<close>

fun mentions :: "string \<Rightarrow> string \<Rightarrow> bool" where
  "mentions [] s = (s = [])"
| "mentions (c # cs) s = (isPrefix s (c # cs) \<or> mentions cs s)"

subsection \<open>How a validation can be rejected\<close>

text \<open>The error of a rejected validation of a field: the MissingSchemaError of its
  target when that model is not registered, and otherwise a database error, whose message
  starts with \<^verbatim>\<open>Database error validating\<close> and the name of the field.\<close>

definition rejection :: "db \<Rightarrow> RefField \<Rightarrow> error \<Rightarrow> bool" where
  "rejection d rf e =
     (if refTo rf \<in> set (db_modelNames d)
      then isPrefix (''Database error validating '' @ field rf @ '': '') (message e)
      else e = missingSchemaError (refTo rf))"

subsection \<open>The identifiers a trace scans for\<close>

text \<open>The identifier an existence-limited query of the reverse scan looks for.\<close>

fun scanned :: "dbop \<Rightarrow> oid list" where
  "scanned (Aggregate name fs i) = [i]"
| "scanned (Exists name v) = []"
| "scanned (ExistsIn name ids) = []"
| "scanned (CountDocuments name ids) = []"
| "scanned (FindOne name) = []"

subsection \<open>More of the example store\<close>

text \<open>A post about to be saved whose author does not exist.\<close>

definition p2 :: doc where
  "p2 =
     \<lparr>doc_id = ''p2'',
      doc_get = (\<lambda>k. if k = ''author'' then VId ''u9''
                     else if k = ''tags'' then VArr [''A'', ''B'', ''A''] else VNull)\<rparr>"


definition p1Data :: "(string \<times> val) list" where
  "p1Data = [(''author'', VId ''u2''), (''tags'', VArr [''A''])]"


definition deleteOff :: ReferenceCheckOptions where
  "deleteOff =
     \<lparr>opt_enableSave = None, opt_enableUpdate = None, opt_enableDelete = Some False,
      opt_enableLogging = None, opt_batchSize = None\<rparr>"

definition noOptions :: ReferenceCheckOptions where
  "noOptions =
     \<lparr>opt_enableSave = None, opt_enableUpdate = None, opt_enableDelete = None,
      opt_enableLogging = None, opt_batchSize = None\<rparr>"




definition setAuthor :: "(string \<times> val) list" where
  "setAuthor = [(''$set'', VObj [(''author'', VId ''nobody'')])]"

section \<open>Properties\<close>

subsection \<open>Deduplication\<close>

lemma set_newSet: "set (newSet acc xs) = set acc \<union> set xs"
  by (induction xs arbitrary: acc) auto

lemma distinct_newSet: "distinct acc \<Longrightarrow> distinct (newSet acc xs)"
  by (induction xs arbitrary: acc) auto

lemma length_newSet: "length (newSet [] xs) = card (set xs)"
proof -
  have "distinct (newSet [] xs)" by (simp add: distinct_newSet)
  then have "length (newSet [] xs) = card (set (newSet [] xs))"
    by (simp add: distinct_card)
  then show ?thesis by (simp add: set_newSet)
qed

text \<open>In a collection whose \<^verbatim>\<open>_id\<close>s are unique, the count of the documents whose
  \<^verbatim>\<open>_id\<close> is among distinct identifiers reaches their number exactly when each of
  them is the \<^verbatim>\<open>_id\<close> of a document.\<close>

lemma count_distinct_ids:
  assumes "distinct (map doc_id ds)" and "distinct us"
  shows "(length (filter (\<lambda>d. doc_id d \<in> set us) ds) = length us)
         = (set us \<subseteq> set (map doc_id ds))"
proof -
  have "length (filter (\<lambda>d. doc_id d \<in> set us) ds)
        = length (filter (\<lambda>i. i \<in> set us) (map doc_id ds))"
    by (induction ds) auto
  also have "\<dots> = card (set (filter (\<lambda>i. i \<in> set us) (map doc_id ds)))"
    using assms(1) distinct_card[of "filter (\<lambda>i. i \<in> set us) (map doc_id ds)"]
    by (simp only: distinct_filter)
  also have "set (filter (\<lambda>i. i \<in> set us) (map doc_id ds)) = set us \<inter> set (map doc_id ds)"
    by auto
  finally have c: "length (filter (\<lambda>d. doc_id d \<in> set us) ds)
                   = card (set us \<inter> set (map doc_id ds))" .
  have l: "length us = card (set us)" using assms(2) by (simp add: distinct_card)
  show ?thesis
  proof
    assume "length (filter (\<lambda>d. doc_id d \<in> set us) ds) = length us"
    then have "card (set us \<inter> set (map doc_id ds)) = card (set us)" using c l by simp
    then have "set us \<inter> set (map doc_id ds) = set us"
      by (intro card_subset_eq) auto
    then show "set us \<subseteq> set (map doc_id ds)" by blast
  next
    assume "set us \<subseteq> set (map doc_id ds)"
    then have "set us \<inter> set (map doc_id ds) = set us" by blast
    then show "length (filter (\<lambda>d. doc_id d \<in> set us) ds) = length us" using c l by simp
  qed
qed

subsection \<open>Validation of an array of identifiers\<close>

text \<open>
  C1. On a collection that answers, validating an array deduplicates its identifiers
  (the query carries each identifier once) and the array is valid if and only if the
  count the collection returns for them equals the number of unique identifiers. Where
  the \<^verbatim>\<open>_id\<close>s of the collection are unique, this is: every identifier of the array is
  the \<^verbatim>\<open>_id\<close> of a document. (This is \<^verbatim>\<open>validateReference\<close> of src/index.ts.)
\<close>

theorem validateReference_array:
  assumes "failure m = None"
  shows "distinct (newSet [] (map toString xs)) \<and> set (newSet [] (map toString xs)) = set xs
    \<and> countDocuments m (newSet [] (map toString xs))
        = Inr (length (filter (\<lambda>d. doc_id d \<in> set xs) (docs m)))
    \<and> snd (validateReference m (VArr xs) fieldName)
        = Inr (length (filter (\<lambda>d. doc_id d \<in> set xs) (docs m)) = card (set xs))
    \<and> (distinct (map doc_id (docs m)) \<longrightarrow>
         snd (validateReference m (VArr xs) fieldName)
         = Inr (set xs \<subseteq> set (map doc_id (docs m))))"
proof -
  let ?U = "newSet [] (map toString xs)"
  have d: "distinct ?U" by (simp add: distinct_newSet)
  have s: "set ?U = set xs" by (simp add: set_newSet toString_def)
  have l: "length ?U = card (set xs)"
    using length_newSet[of "map toString xs"] by (simp add: toString_def)
  have c: "countDocuments m ?U = Inr (length (filter (\<lambda>d. doc_id d \<in> set xs) (docs m)))"
    using assms s by (simp add: countDocuments_def)
  have v: "snd (validateReference m (VArr xs) fieldName)
        = Inr (length (filter (\<lambda>d. doc_id d \<in> set xs) (docs m)) = card (set xs))"
  proof (cases "xs = []")
    case True
    then show ?thesis by (simp add: validateReference_def)
  next
    case False
    then show ?thesis using c l by (simp add: validateReference_def Let_def)
  qed
  have "snd (validateReference m (VArr xs) fieldName)
        = Inr (set xs \<subseteq> set (map doc_id (docs m)))"
    if "distinct (map doc_id (docs m))"
    using count_distinct_ids[OF that d] v s l by simp
  with d s c v show ?thesis by blast
qed

text \<open>The collection holds exactly \<open>A\<close> and \<open>B\<close>: \<open>[A, A, B]\<close> is valid, \<open>[A, C]\<close> is not.\<close>

theorem validateReference_array_witness:
  "failure exTag = None
   \<and> snd (validateReference exTag (VArr [''A'', ''A'', ''B'']) ''tags'') = Inr True
   \<and> snd (validateReference exTag (VArr [''A'', ''C'']) ''tags'') = Inr False"
  using validateReference_array[of exTag "[''A'', ''A'', ''B'']" "''tags''"]
        validateReference_array[of exTag "[''A'', ''C'']" "''tags''"]
  by (simp add: exTag_def)

subsection \<open>Extraction of the reference fields\<close>

lemma subRefFields_spec:
  "subRefFields fld sub
   = map (\<lambda>r. \<lparr>field = fld, refTo = r\<rparr>)
       (concat (map (\<lambda>(subField, subPath). annotation subPath) sub))"
  by (induction sub) (auto simp: annotation_def split: option.splits)

lemma getRefFields_spec: "getRefFields s = extract_spec s"
proof (induction s)
  case Nil
  show ?case by (simp add: extract_spec_def)
next
  case (Cons a s)
  obtain fld p where a: "a = (fld, p)" by (cases a)
  have "getRefFields ((fld, p) # s) =
      map (\<lambda>r. \<lparr>field = fld, refTo = r\<rparr>) (annotation p)
      @ map (\<lambda>r. \<lparr>field = fld, refTo = r\<rparr>)
          (concat (map (\<lambda>(subField, subPath). annotation subPath) (nestedSchema p)))
      @ getRefFields s"
    by (simp add: annotation_def nestedSchema_def subRefFields_spec split: option.splits)
  then show ?case using Cons a by (simp add: extract_spec_def)
qed

lemma field_getRefFields: "field ` set (getRefFields s) \<subseteq> fst ` set s"
  unfolding getRefFields_spec extract_spec_def by force

lemma getRefFields_empty:
  "(getRefFields s = []) =
     list_all (\<lambda>(fld, p). annotation p = []
        \<and> list_all (\<lambda>(subField, subPath). annotation subPath = []) (nestedSchema p)) s"
  unfolding getRefFields_spec extract_spec_def
  by (induction s) (auto simp: list_all_iff)

text \<open>
  C4. For every schema the extractor emits, field by field in the order of the schema,
  one ReferenceField for the field's own annotation and, when the field is array-typed
  with a nested schema, one more per annotated field of that nested schema; each of them
  carries the name of the outer field, which is a field of the schema itself; and the
  result is empty exactly when no field and no nested field is annotated. (This is
  \<^verbatim>\<open>getRefFields\<close> of src/index.ts.)
\<close>

theorem getRefFields_extract:
  "getRefFields s = extract_spec s
   \<and> set (map field (getRefFields s)) \<subseteq> set (map fst s)
   \<and> (getRefFields s = []) =
       list_all (\<lambda>(fld, p). annotation p = []
          \<and> list_all (\<lambda>(subField, subPath). annotation subPath = []) (nestedSchema p)) s"
  using getRefFields_spec[of s] field_getRefFields[of s] getRefFields_empty[of s]
  by simp

text \<open>A post has the two references it declares; a thread has the one of its comments,
  under the name \<open>comments\<close>; a tag has none.\<close>

theorem getRefFields_extract_witness:
  "getRefFields postSchema
     = [\<lparr>field = ''author'', refTo = ''User''\<rparr>, \<lparr>field = ''tags'', refTo = ''Tag''\<rparr>]
   \<and> getRefFields threadSchema = [\<lparr>field = ''comments'', refTo = ''User''\<rparr>]
   \<and> getRefFields (schema exTag) = []"
  using getRefFields_extract[of postSchema] getRefFields_extract[of threadSchema]
        getRefFields_extract[of "schema exTag"]
  by (simp add: postSchema_def threadSchema_def exTag_def plain_def extract_spec_def
        annotation_def nestedSchema_def)

subsection \<open>Sequencing\<close>

lemma bind_io_Inr [simp]: "bind_io (t, Inr a) f = (case f a of (t', r) \<Rightarrow> (t @ t', r))"
  by (simp add: bind_io_def)

lemma bind_io_Inl [simp]: "bind_io (t, Inl e) f = (t, Inl e)"
  by (simp add: bind_io_def)

text \<open>\<^const>\<open>validateReference\<close> either answers or rejects with a database error that
  carries the name of the field.\<close>

lemma validateReference_cases:
  "(\<exists>t msg. validateReference m v fieldName = (t, Inl (databaseError fieldName msg)))
   \<or> (\<exists>t b. validateReference m v fieldName = (t, Inr b))"
  by (cases v; cases "failure m")
     (auto simp: validateReference_def countDocuments_def exists_by_id_def Let_def)

text \<open>Resolving the model and validating against it is \<^const>\<open>validateField\<close>.\<close>

lemma resolve_then_validate:
  "(case model_of d (refTo rf) of
      Inl e \<Rightarrow> ([], Inl e)
    | Inr m \<Rightarrow> bind_io (validateReference m v (field rf)) k)
   = bind_io (validateField d rf v) k"
  by (cases "model_of d (refTo rf)") (simp_all add: validateField_def)

text \<open>Validating a field answers, or rejects with the MissingSchemaError of a target that
  is not registered, or rejects with a database error that carries the name of the
  field.\<close>

lemma validateField_cases:
  "(\<exists>t b. validateField d rf v = (t, Inr b))
   \<or> (refTo rf \<notin> set (db_modelNames d)
       \<and> validateField d rf v = ([], Inl (missingSchemaError (refTo rf))))
   \<or> (refTo rf \<in> set (db_modelNames d)
       \<and> (\<exists>t msg. validateField d rf v = (t, Inl (databaseError (field rf) msg))))"
  using validateReference_cases[of "db_model d (refTo rf)" v "field rf"]
  by (auto simp: validateField_def model_of_def)

subsection \<open>The two implementations\<close>

text \<open>
  C2, as stated, fails. For a thread the TypeScript extractor returns the reference of
  the comments and the JavaScript one returns nothing; and for \<open>[A, C]\<close> against a
  collection holding \<open>A\<close> and \<open>B\<close> the TypeScript validation answers false while the
  JavaScript one answers the document found for \<open>A\<close>, which is truthy.
\<close>

theorem implementations_differ_counterexample:
  "getRefFields threadSchema = [\<lparr>field = ''comments'', refTo = ''User''\<rparr>]
   \<and> getRefFields_js threadSchema = []
   \<and> snd (validateReference exTag (VArr [''A'', ''C'']) ''tags'') = Inr False
   \<and> snd (validateReference_js exTag ''Tag'' (VArr [''A'', ''C'']) ''tags'') = Inr (JDoc ''A'')
   \<and> js_truthy (JDoc ''A'')"
  by (simp add: threadSchema_def plain_def exTag_def validateReference_def
        validateReference_js_def countDocuments_def exists_in_def of_exists_def toString_def)

lemma getRefFields_js_agree:
  "list_all (\<lambda>(fld, p).
      list_all (\<lambda>(subField, subPath). annotation subPath = []) (nestedSchema p)) s
   \<Longrightarrow> getRefFields_js s = getRefFields s"
proof (induction s)
  case Nil
  show ?case by simp
next
  case (Cons a s)
  obtain fld p where a: "a = (fld, p)" by (cases a)
  have "list_all (\<lambda>(subField, subPath). annotation subPath = []) sub \<Longrightarrow>
        concat (map (\<lambda>(subField, subPath). annotation subPath) sub) = []" for sub :: schema
    by (induction sub) auto
  moreover have "list_all (\<lambda>(subField, subPath). annotation subPath = []) (nestedSchema p)"
    using Cons.prems a by simp
  ultimately
  have n: "concat (map (\<lambda>(subField, subPath). annotation subPath) (nestedSchema p)) = []"
    by blast
  have "(if instanceofArray p
         then (case path_schema p of Some sub \<Rightarrow> subRefFields fld sub | None \<Rightarrow> [])
         else [])
        = map (\<lambda>r. \<lparr>field = fld, refTo = r\<rparr>)
            (concat (map (\<lambda>(subField, subPath). annotation subPath) (nestedSchema p)))"
    by (simp add: nestedSchema_def subRefFields_spec split: option.splits)
  then have "(if instanceofArray p
         then (case path_schema p of Some sub \<Rightarrow> subRefFields fld sub | None \<Rightarrow> [])
         else []) = []"
    by (simp only: n list.map)
  then have "getRefFields ((fld, p) # s)
        = (case options_ref p of
             Some r \<Rightarrow> if r \<noteq> [] then [\<lparr>field = fld, refTo = r\<rparr>] else []
           | None \<Rightarrow> [])
          @ getRefFields s"
    by simp
  moreover have "getRefFields_js s = getRefFields s" using Cons by simp
  ultimately show ?case using a by (simp split: option.splits)
qed

lemma validateReference_js_agree:
  assumes "case v of VArr xs \<Rightarrow> xs = [] | _ \<Rightarrow> True"
  shows "map_prod id (map_sum id js_truthy) (validateReference_js m refModelName v fieldName)
         = validateReference m v fieldName"
proof (cases v)
  case VNull
  then show ?thesis by (simp add: validateReference_def validateReference_js_def)
next
  case (VId i)
  then show ?thesis
    by (cases "failure m"; cases "find (\<lambda>j. j = i) (map doc_id (docs m))")
       (simp_all add: validateReference_def validateReference_js_def exists_by_id_def
          of_exists_def)
next
  case (VArr xs)
  then show ?thesis using assms by (simp add: validateReference_def validateReference_js_def)
next
  case (VObj kvs)
  then show ?thesis
    by (simp add: validateReference_def validateReference_js_def exists_by_id_def)
qed

lemma find_in_set: "(find (\<lambda>j. j \<in> S) ids \<noteq> None) = (\<exists>i \<in> set ids. i \<in> S)"
  by (induction ids) auto

text \<open>On a non-empty array the JavaScript validation is truthy as soon as one of the
  identifiers exists.\<close>

lemma validateReference_js_array:
  assumes "failure m = None" and "xs \<noteq> []"
  shows "map_sum id js_truthy (snd (validateReference_js m refModelName (VArr xs) fieldName))
         = Inr (\<exists>i \<in> set xs. i \<in> set (map doc_id (docs m)))"
proof -
  have "js_truthy (of_exists r) = (r \<noteq> None)" for r
    by (cases r) (simp_all add: of_exists_def)
  moreover have "(find (\<lambda>j. j \<in> set xs) (map doc_id (docs m)) \<noteq> None)
        = (\<exists>i \<in> set xs. i \<in> set (map doc_id (docs m)))"
    using find_in_set[of "set xs" "map doc_id (docs m)"] by auto
  ultimately show ?thesis
    using assms
    by (simp add: validateReference_js_def exists_in_def set_newSet Let_def)
qed

text \<open>
  C2, amended. The two implementations extract the same reference fields from every
  schema in which no array-typed field has a nested schema with an annotated field; and
  for every value that is not a non-empty array (absent, scalar, empty array) and every
  state of the store they issue the same queries and end alike: the same database error,
  or results of the same truthiness.
\<close>

theorem implementations_agree:
  "(list_all (\<lambda>(fld, p).
       list_all (\<lambda>(subField, subPath). annotation subPath = []) (nestedSchema p)) s
      \<longrightarrow> getRefFields_js s = getRefFields s)
   \<and> ((case v of VArr xs \<Rightarrow> xs = [] | _ \<Rightarrow> True)
      \<longrightarrow> map_prod id (map_sum id js_truthy) (validateReference_js m refModelName v fieldName)
          = validateReference m v fieldName)"
  using getRefFields_js_agree[of s] validateReference_js_agree[of v m refModelName fieldName]
  by blast

theorem implementations_agree_witness:
  "list_all (\<lambda>(fld, p).
      list_all (\<lambda>(subField, subPath). annotation subPath = []) (nestedSchema p)) postSchema
   \<and> getRefFields_js postSchema = getRefFields postSchema
   \<and> getRefFields postSchema \<noteq> []
   \<and> map_prod id (map_sum id js_truthy)
        (validateReference_js exUser ''User'' (VId ''u9'') ''author'')
      = validateReference exUser (VId ''u9'') ''author''
   \<and> validateReference exUser (VId ''u9'') ''author''
      = ([Exists ''User'' (VId ''u9'')], Inr False)"
  using implementations_agree[of postSchema "VId ''u9''" exUser "''User''" "''author''"]
  by (simp add: postSchema_def plain_def nestedSchema_def exUser_def validateReference_def
        exists_by_id_def)

subsection \<open>Discovery of the referencing collections\<close>

lemma scanPaths_filter:
  "scanPaths name s = map fst (filter (\<lambda>(fld, p). options_ref p = Some name) s)"
  by (induction s) auto

text \<open>What the discovery keeps: the collections other than the affected one that have a
  top-level path whose own \<^verbatim>\<open>ref\<close> option is the affected name, each with those paths.\<close>

lemma findRefModels_filter:
  "findRefModels d name names
   = map (\<lambda>n. \<lparr>rm_modelName = n, rm_fields = scanPaths name (schema (db_model d n))\<rparr>)
       (filter (\<lambda>n. n \<noteq> name \<and> scanPaths name (schema (db_model d n)) \<noteq> []) names)"
  by (induction names) (auto simp: Let_def)

text \<open>
  C3. The discovery does not use the extraction and does not look into nested schemas.
  In the example store a thread declares, inside its array of comments, a reference to
  the users, which the extractor reports; on a delete of a user the discovery keeps the
  posts and leaves the threads out.
\<close>

theorem discovery_misses_nested_reference:
  "getRefFields (schema (db_model exDb ''Thread''))
     = [\<lparr>field = ''comments'', refTo = ''User''\<rparr>]
   \<and> findRefModels exDb ''User'' (db_modelNames exDb)
       = [\<lparr>rm_modelName = ''Post'', rm_fields = [''author'']\<rparr>]"
  by (simp add: exDb_def exUser_def exPost_def exTag_def exThread_def postSchema_def
        threadSchema_def plain_def)

subsection \<open>The delete hook scans for the first match only\<close>

lemma checkRefModels_scanned:
  "set (concat (map scanned (fst (checkRefModels d i rms)))) \<subseteq> {i}"
proof (induction rms)
  case Nil
  show ?case by simp
next
  case (Cons rm rms)
  show ?case
  proof (cases "aggregate (db_model d (rm_modelName rm)) (rm_fields rm) i")
    case (Inl msg)
    then show ?thesis by (simp add: Let_def)
  next
    case (Inr found)
    then show ?thesis using Cons.IH
      by (cases "checkRefModels d i rms") (auto simp: Let_def)
  qed
qed

lemma pre_delete_scanned:
  assumes "failure this_model = None"
    and "find query (docs this_model) = Some deletingItem"
  shows "set (concat (map scanned (fst (pre_delete d this_model query))))
         \<subseteq> {doc_id deletingItem}"
proof -
  let ?rms = "findRefModels d (modelName this_model) (db_modelNames d)"
  have f: "findOne this_model query = Inr (Some deletingItem)"
    using assms by (simp add: findOne_def)
  show ?thesis
  proof (cases "length ?rms = 0")
    case True
    then show ?thesis using f by (simp add: pre_delete_def Let_def)
  next
    case False
    then show ?thesis
      using f checkRefModels_scanned[of d "doc_id deletingItem" ?rms]
      by (cases "checkRefModels d (doc_id deletingItem) ?rms")
         (simp add: pre_delete_def Let_def)
  qed
qed

lemma find_by_id:
  "find query ds = Some item \<Longrightarrow> distinct (map doc_id ds) \<Longrightarrow>
   find (\<lambda>x. doc_id x = doc_id item) ds = Some item"
proof (induction ds)
  case Nil
  then show ?case by simp
next
  case (Cons a ds)
  show ?case
  proof (cases "query a")
    case True
    then show ?thesis using Cons.prems by simp
  next
    case False
    then have f: "find query ds = Some item" using Cons.prems by simp
    then have "item \<in> set ds" by (auto simp: find_Some_iff)
    then have "doc_id a \<noteq> doc_id item" using Cons.prems(2) by auto
    then show ?thesis using Cons.IH f Cons.prems(2) by simp
  qed
qed

text \<open>
  C5. When the collection answers and \<open>deletingItem\<close> is the first document the query
  matches, every existence-limited query the delete hook issues looks for the identifier
  of \<open>deletingItem\<close>: the identifier of no other matching document is scanned for,
  however many the query matches. With unique \<^verbatim>\<open>_id\<close>s the hook does exactly what it
  does for the query that selects \<open>deletingItem\<close> alone.
\<close>

theorem pre_delete_first_match_only:
  assumes "failure this_model = None"
    and "find query (docs this_model) = Some deletingItem"
  shows "set (concat (map scanned (fst (pre_delete d this_model query))))
         \<subseteq> {doc_id deletingItem}
     \<and> (distinct (map doc_id (docs this_model)) \<longrightarrow>
          pre_delete d this_model query
          = pre_delete d this_model (\<lambda>x. doc_id x = doc_id deletingItem))"
proof -
  have "pre_delete d this_model query
          = pre_delete d this_model (\<lambda>x. doc_id x = doc_id deletingItem)"
    if "distinct (map doc_id (docs this_model))"
    using assms find_by_id[OF assms(2) that] by (simp add: pre_delete_def findOne_def)
  then show ?thesis using pre_delete_scanned[OF assms, of d] by blast
qed

text \<open>A delete whose query matches both users: only \<open>u1\<close> is scanned for, and the delete
  goes ahead although \<open>u2\<close> is the author of a post.\<close>

theorem pre_delete_first_match_only_witness:
  "failure exUser = None
   \<and> map doc_id (filter (\<lambda>d. True) (docs exUser)) = [''u1'', ''u2'']
   \<and> aggregate exPost [''author''] ''u2'' = Inr [p1]
   \<and> pre_delete exDb exUser (\<lambda>d. True)
       = ([FindOne ''User'', Aggregate ''Post'' [''author''] ''u1''], Inr ())
   \<and> set (concat (map scanned (fst (pre_delete exDb exUser (\<lambda>d. True))))) \<subseteq> {''u1''}
   \<and> pre_delete exDb exUser (\<lambda>d. True) = pre_delete exDb exUser (\<lambda>x. doc_id x = ''u1'')"
  using pre_delete_first_match_only[of exUser "\<lambda>d. True"
          "\<lparr>doc_id = ''u1'', doc_get = (\<lambda>k. VNull)\<rparr>" exDb]
  by (simp add: exUser_def exPost_def exDb_def exTag_def exThread_def p1_def postSchema_def
        threadSchema_def plain_def
        pre_delete_def findOne_def aggregate_def Let_def)

subsection \<open>The error of a refused save\<close>

lemma isPrefix_append: "isPrefix s (s @ b)"
  by (induction s) auto

lemma mentions_append: "mentions (a @ s @ b) s"
proof (induction a)
  case Nil
  show ?case by (cases "s @ b") (use isPrefix_append[of s b] in auto)
next
  case (Cons c a)
  then show ?case by simp
qed

lemma mentions_end: "mentions (a @ s) s"
  using mentions_append[of a s "[]"] by simp

lemma save_loop_first_invalid:
  assumes "list_all (fieldPasses d this) pre" and "fieldInvalid d this fo"
  shows "save_loop d this (pre @ fo # post)
         = (concat (map (fieldLookups d this) (pre @ [fo])),
            Inl (validationFailed (doc_get this (field fo)) (refTo fo)))"
  using assms(1)
proof (induction pre)
  case Nil
  obtain t where "validateField d fo (doc_get this (field fo)) = (t, Inr False)"
    using assms(2)
    by (cases "validateField d fo (doc_get this (field fo))") (simp add: fieldInvalid_def)
  then show ?case
    using assms(2)
    by (simp add: fieldInvalid_def fieldLookups_def resolve_then_validate Let_def)
next
  case (Cons g pre)
  show ?case
  proof (cases "truthy (doc_get this (field g))")
    case False
    then show ?thesis using Cons by (simp add: fieldLookups_def fieldPasses_def Let_def)
  next
    case True
    then obtain t where "validateField d g (doc_get this (field g)) = (t, Inr True)"
      using Cons.prems
      by (cases "validateField d g (doc_get this (field g))") (simp add: fieldPasses_def)
    then show ?thesis
      using True Cons by (simp add: fieldLookups_def resolve_then_validate Let_def)
  qed
qed

text \<open>
  C6, as stated, fails. Saving a post whose author \<open>u9\<close> does not exist is refused with
  a message that gives the value and the target collection; the name of the field,
  \<open>author\<close>, does not occur in it.
\<close>

theorem save_error_omits_field_counterexample:
  "snd (pre_save exDb postSchema p2)
     = Inl (Error ''Reference validation failed: The value u9 does not exist within User'')
   \<and> \<not> mentions
        (message
           (Error ''Reference validation failed: The value u9 does not exist within User''))
        ''author''"
  by (simp add: postSchema_def plain_def p2_def exDb_def exUser_def pre_save_def Let_def
        model_of_def validationFailed_def validateReference_def exists_by_id_def toString_def)

text \<open>
  C6, amended. When the reference fields of the schema are \<open>pre\<close>, then \<open>fo\<close>, then
  \<open>post\<close>, every field of \<open>pre\<close> is absent or resolves, and \<open>fo\<close> is invalid, the save is
  aborted at \<open>fo\<close>: the queries issued are those of \<open>pre\<close> and of \<open>fo\<close>, none for \<open>post\<close>,
  and the error is \<^verbatim>\<open>Reference validation failed: The value V does not exist within T\<close>,
  which names the offending value and the target collection.
\<close>

theorem pre_save_first_invalid:
  assumes "getRefFields this_schema = pre @ fo # post"
    and "list_all (fieldPasses d this) pre" and "fieldInvalid d this fo"
  shows "pre_save d this_schema this
         = (concat (map (fieldLookups d this) (pre @ [fo])),
            Inl (Error (''Reference validation failed: The value ''
                        @ render (doc_get this (field fo))
                        @ '' does not exist within '' @ refTo fo)))
     \<and> mentions (''Reference validation failed: The value ''
                  @ render (doc_get this (field fo))
                  @ '' does not exist within '' @ refTo fo)
          (render (doc_get this (field fo)))
     \<and> mentions (''Reference validation failed: The value ''
                  @ render (doc_get this (field fo))
                  @ '' does not exist within '' @ refTo fo)
          (refTo fo)"
proof -
  let ?a = "''Reference validation failed: The value ''"
  let ?v = "render (doc_get this (field fo))"
  let ?b = "'' does not exist within ''"
  have 1: "mentions (?a @ ?v @ ?b @ refTo fo) ?v"
    using mentions_append[of ?a ?v "?b @ refTo fo"] by simp
  have 2: "mentions (?a @ ?v @ ?b @ refTo fo) (refTo fo)"
    using mentions_end[of "?a @ ?v @ ?b" "refTo fo"] by simp
  have "pre_save d this_schema this = save_loop d this (pre @ fo # post)"
    using assms(1) by (simp add: pre_save_def Let_def)
  then show ?thesis
    using save_loop_first_invalid[OF assms(2,3), of post] 1 2
    by (simp add: validationFailed_def)
qed

theorem pre_save_first_invalid_witness:
  "getRefFields postSchema
     = [] @ \<lparr>field = ''author'', refTo = ''User''\<rparr> # [\<lparr>field = ''tags'', refTo = ''Tag''\<rparr>]
   \<and> list_all (fieldPasses exDb p2) []
   \<and> fieldInvalid exDb p2 \<lparr>field = ''author'', refTo = ''User''\<rparr>
   \<and> pre_save exDb postSchema p2
       = ([Exists ''User'' (VId ''u9'')],
          Inl (Error ''Reference validation failed: The value u9 does not exist within User''))"
  using pre_save_first_invalid[of postSchema "[]" "\<lparr>field = ''author'', refTo = ''User''\<rparr>"
          "[\<lparr>field = ''tags'', refTo = ''Tag''\<rparr>]" exDb p2]
  by (simp add: postSchema_def plain_def p2_def exDb_def exUser_def fieldInvalid_def
        fieldLookups_def validateField_def model_of_def validateReference_def
        exists_by_id_def toString_def)

subsection \<open>The manual validation\<close>

lemma rejection_validateField:
  "snd (validateField d rf v) = Inl e \<Longrightarrow> rejection d rf e"
  using validateField_cases[of d rf v]
        isPrefix_append[of "''Database error validating '' @ field rf @ '': ''"]
  by (auto simp: rejection_def databaseError_def)


lemma checkReferences_loop_char:
  "snd (checkReferences_loop d this results rfs)
     = Inr (results @ results_spec d (doc_get this) rfs)
   \<or> (\<exists>rf \<in> set rfs. \<exists>e.
        lookupFails d (doc_get this) rf e \<and> rejection d rf e
        \<and> snd (checkReferences_loop d this results rfs) = Inl e)"
proof (induction rfs arbitrary: results)
  case Nil
  show ?case by (simp add: results_spec_def)
next
  case (Cons rf rfs)
  let ?v = "doc_get this (field rf)"
  show ?case
  proof (cases "truthy ?v")
    case False
    then show ?thesis using Cons.IH[of results] by (auto simp: results_spec_def Let_def)
  next
    case True
    show ?thesis
    proof (cases "validateField d rf ?v")
      case (Pair t r)
      show ?thesis
      proof (cases r)
        case (Inl e)
        then have "lookupFails d (doc_get this) rf e" and "rejection d rf e"
          using True Pair rejection_validateField[of d rf ?v e]
          by (simp_all add: lookupFails_def)
        moreover have "snd (checkReferences_loop d this results (rf # rfs)) = Inl e"
          using True Pair Inl by (simp add: resolve_then_validate Let_def)
        ultimately show ?thesis by auto
      next
        case (Inr b)
        let ?r = "\<lparr>vr_field = field rf, vr_refTo = refTo rf, vr_value = ?v, isValid = b\<rparr>"
        have step: "snd (checkReferences_loop d this results (rf # rfs))
                    = snd (checkReferences_loop d this (results @ [?r]) rfs)"
          using True Pair Inr by (simp add: resolve_then_validate Let_def split: prod.splits)
        have spec: "results_spec d (doc_get this) (rf # rfs)
                    = ?r # results_spec d (doc_get this) rfs"
          using True Pair Inr by (simp add: results_spec_def verdict_def)
        from Cons.IH[of "results @ [?r]"] show ?thesis
          unfolding step spec by auto
      qed
    qed
  qed
qed






subsection \<open>The two entry points of the manual validation agree\<close>

lemma loops_agree:
  "\<forall>rf \<in> set rfs. payload_get data (field rf) = doc_get this (field rf) \<Longrightarrow>
   validateReferences_loop d data results rfs = checkReferences_loop d this results rfs"
proof (induction rfs arbitrary: results)
  case Nil
  show ?case by simp
next
  case (Cons rf rfs)
  then have v: "payload_get data (field rf) = doc_get this (field rf)"
    and rest: "\<And>rs. validateReferences_loop d data rs rfs = checkReferences_loop d this rs rfs"
    by simp_all
  show ?case by (simp add: v rest resolve_then_validate Let_def)
qed

lemma checkReferences_order:
  assumes "snd (checkReferences d s this) = Inr rs"
  shows "map vr_field rs
         = map field (filter (\<lambda>rf. truthy (doc_get this (field rf))) (getRefFields s))"
proof -
  from checkReferences_loop_char[of d this "[]" "getRefFields s"] assms
  have "rs = results_spec d (doc_get this) (getRefFields s)"
    by (auto simp: checkReferences_def)
  then show ?thesis by (simp add: results_spec_def comp_def)
qed

text \<open>
  C10. When the data map gives every reference field of the schema the value the document
  has for it, \<^verbatim>\<open>validateReferences(data)\<close> and \<^verbatim>\<open>checkReferences()\<close> on the document,
  against the same store, issue the same queries and return the same: the same error,
  or the same sequence of results, which follows the order in which the extractor
  returns the fields.
\<close>

theorem checkReferences_agree:
  assumes "\<forall>rf \<in> set (getRefFields s). payload_get data (field rf) = doc_get this (field rf)"
  shows "validateReferences d s data = checkReferences d s this
    \<and> (\<forall>rs. snd (checkReferences d s this) = Inr rs \<longrightarrow>
          map vr_field rs
          = map field (filter (\<lambda>rf. truthy (doc_get this (field rf))) (getRefFields s)))"
  using loops_agree[OF assms] checkReferences_order[of d s this]
  by (simp add: validateReferences_def checkReferences_def)

theorem checkReferences_agree_witness:
  "list_all (\<lambda>rf. payload_get p1Data (field rf) = doc_get p1 (field rf))
     (getRefFields postSchema)
   \<and> validateReferences exDb postSchema p1Data = checkReferences exDb postSchema p1
   \<and> checkReferences exDb postSchema p1
      = ([Exists ''User'' (VId ''u2''), CountDocuments ''Tag'' [''A'']],
         Inr [\<lparr>vr_field = ''author'', vr_refTo = ''User'', vr_value = VId ''u2'',
                 isValid = True\<rparr>,
              \<lparr>vr_field = ''tags'', vr_refTo = ''Tag'', vr_value = VArr [''A''],
                 isValid = True\<rparr>])"
  using checkReferences_agree[of postSchema p1Data p1 exDb]
  by (simp add: exDb_def exUser_def exTag_def postSchema_def plain_def
        p1Data_def p1_def validateReferences_def checkReferences_def payload_get_def
        model_of_def validateReference_def exists_by_id_def countDocuments_def toString_def
        Let_def)

subsection \<open>Updates are read at the top level only\<close>

lemma update_loop_untouched:
  "\<forall>rf \<in> set rfs. \<not> truthy (payload_get payload (field rf)) \<Longrightarrow>
   update_loop d payload rfs = ([], Inr ())"
  by (induction rfs) (simp_all add: Let_def)

lemma payload_get_absent: "k \<notin> set (map fst payload) \<Longrightarrow> payload_get payload k = VNull"
  by (simp add: payload_get_def map_of_eq_None_iff[THEN iffD2])

text \<open>
  C9. The update hook reads the value of a reference field at the top-level key of that
  name in the payload, nowhere else. When no reference field of the schema is a top-level
  key of the payload, as when they all sit under update operators, the hook issues no query
  and lets the update go ahead, whatever the payload assigns below the top level.
\<close>

theorem pre_update_top_level_only:
  assumes "set (map field (getRefFields (schema this_model))) \<inter> set (map fst payload) = {}"
  shows "pre_update d this_model (Some payload) = ([], Inr ())"
proof -
  have "\<forall>rf \<in> set (getRefFields (schema this_model)).
          \<not> truthy (payload_get payload (field rf))"
  proof
    fix rf assume "rf \<in> set (getRefFields (schema this_model))"
    then have "field rf \<notin> set (map fst payload)" using assms by auto
    then show "\<not> truthy (payload_get payload (field rf))" by (simp add: payload_get_absent)
  qed
  then show ?thesis by (simp add: pre_update_def Let_def update_loop_untouched)
qed

text \<open>\<^verbatim>\<open>{ $set: { author: nobody } }\<close> on a post: no user \<open>nobody\<close> exists, no query is
  issued and the update goes ahead; the same assignment at the top level is refused.\<close>

theorem pre_update_top_level_only_witness:
  "set (map field (getRefFields (schema exPost))) \<inter> set (map fst setAuthor) = {}
   \<and> ''nobody'' \<notin> set (map doc_id (docs exUser))
   \<and> pre_update exDb exPost (Some setAuthor) = ([], Inr ())
   \<and> pre_update exDb exPost (Some [(''author'', VId ''nobody'')])
      = ([Exists ''User'' (VId ''nobody'')],
         Inl (Error ''Reference validation failed: The value nobody does not exist within User''))"
  using pre_update_top_level_only[of exPost setAuthor exDb]
  by (simp add: exPost_def postSchema_def plain_def exUser_def exDb_def setAuthor_def
        pre_update_def payload_get_def model_of_def validateReference_def exists_by_id_def
        validationFailed_def toString_def Let_def)

subsection \<open>Disabled flags\<close>

text \<open>
  C8. For each of the three flags: when the options set it to false, the plugin registers
  no handler for the operations of that kind, so nothing runs before such an operation,
  no query is issued and the operation goes ahead.
\<close>

theorem disabled_flag_installs_no_hook:
  "(opt_enableSave options = Some False \<longrightarrow>
      preSave (ReferenceCheck options) = None
      \<and> before_save (ReferenceCheck options) d this_schema this = ([], Inr ()))
   \<and> (opt_enableUpdate options = Some False \<longrightarrow>
      preUpdate (ReferenceCheck options) = None
      \<and> before_update (ReferenceCheck options) d this_model getUpdate = ([], Inr ()))
   \<and> (opt_enableDelete options = Some False \<longrightarrow>
      preDelete (ReferenceCheck options) = None
      \<and> before_delete (ReferenceCheck options) d this_model query = ([], Inr ()))"
  by (simp add: ReferenceCheck_def mergeConfig_def before_save_def before_update_def
        before_delete_def Let_def)

text \<open>With the default options the delete of \<open>u2\<close>, the author of \<open>p1\<close>, is refused.\<close>

lemma default_delete_refused:
  "before_delete (ReferenceCheck noOptions) exDb exUser (\<lambda>d. doc_id d = ''u2'')
   = ([FindOne ''User'', Aggregate ''Post'' [''author''] ''u2''],
      Inl (Error ''Cannot delete record u2: It is referenced in Post model''))"
  by (simp add: exUser_def exPost_def exDb_def exTag_def exThread_def p1_def postSchema_def
        threadSchema_def plain_def noOptions_def ReferenceCheck_def mergeConfig_def
        before_delete_def cannotDelete_def toString_def
        pre_delete_def findOne_def aggregate_def Let_def)

text \<open>With \<open>enableDelete\<close> false it goes ahead, with no query, although \<open>p1\<close> refers to
  \<open>u2\<close>.\<close>

theorem disabled_flag_installs_no_hook_witness:
  "opt_enableDelete deleteOff = Some False
   \<and> aggregate exPost [''author''] ''u2'' = Inr [p1]
   \<and> before_delete (ReferenceCheck deleteOff) exDb exUser (\<lambda>d. doc_id d = ''u2'')
      = ([], Inr ())"
  using disabled_flag_installs_no_hook[of deleteOff exDb "[]" "p1" exUser None
          "\<lambda>d. doc_id d = ''u2''"]
  by (simp add: deleteOff_def exPost_def p1_def aggregate_def)

end
